theory Spec2Isabelle
  imports Complex_Main
begin

section \<open>Tables\<close>

text \<open>
  A table is a header and a list of rows, each row a list of cells in header order.
  A cell is empty (\<open>NaN\<close>, which also stands for the empty timestamp \<open>NaT\<close>), a
  string, a number or a timestamp. Timestamps count nanoseconds, the resolution of the
  datetime column that \<open>pd.to_datetime\<close> builds.
\<close>

datatype cell = NaN | Str string | Num rat | Stamp int

record frame =
  columns :: "string list"
  rows :: "cell list list"

definition rectangular :: "frame \<Rightarrow> bool" where
  "rectangular df = list_all (\<lambda>r. length r = length (columns df)) (rows df)"

datatype exn = KeyError string | ValueError string | Unreadable string

definition then_do :: "exn + 'a \<Rightarrow> ('a \<Rightarrow> exn + 'b) \<Rightarrow> exn + 'b" where
  "then_do r f = (case r of Inl e \<Rightarrow> Inl e | Inr x \<Rightarrow> f x)"

fun position :: "'a \<Rightarrow> 'a list \<Rightarrow> nat option" where
  "position x [] = None"
| "position x (y # ys) = (if x = y then Some 0 else map_option Suc (position x ys))"

text \<open>\<open>df[c]\<close>: the cells of column \<open>c\<close>, or \<open>KeyError\<close>.\<close>

definition getitem :: "frame \<Rightarrow> string \<Rightarrow> exn + cell list" where
  "getitem df c =
     (case position c (columns df) of
        None \<Rightarrow> Inl (KeyError c)
      | Some i \<Rightarrow> Inr (map (\<lambda>r. r ! i) (rows df)))"

text \<open>\<open>df[c] = vs\<close>: overwrite column \<open>c\<close> where it exists, append it otherwise.\<close>

definition setitem :: "frame \<Rightarrow> string \<Rightarrow> cell list \<Rightarrow> frame" where
  "setitem df c vs =
     (case position c (columns df) of
        Some i \<Rightarrow> df\<lparr>rows := map (\<lambda>(r, v). r[i := v]) (zip (rows df) vs)\<rparr>
      | None \<Rightarrow> df\<lparr>columns := columns df @ [c],
                    rows := map (\<lambda>(r, v). r @ [v]) (zip (rows df) vs)\<rparr>)"

text \<open>\<open>df[mask]\<close>: the rows whose mask entry is true.\<close>

definition mask_rows :: "frame \<Rightarrow> bool list \<Rightarrow> frame" where
  "mask_rows df keep = df\<lparr>rows := map fst (filter snd (zip (rows df) keep))\<rparr>"

text \<open>
  \<open>series.astype(str)\<close>: a string stays as it is; the text of any other cell is the
  library's, taken as the parameter \<open>to_str\<close>.
\<close>

definition cell_text :: "(cell \<Rightarrow> string) \<Rightarrow> cell \<Rightarrow> string" where
  "cell_text to_str c = (case c of Str s \<Rightarrow> s | _ \<Rightarrow> to_str c)"

definition astype_str :: "(cell \<Rightarrow> string) \<Rightarrow> cell list \<Rightarrow> string list" where
  "astype_str to_str = map (cell_text to_str)"

text \<open>
  \<open>pd.to_datetime(series, errors='coerce')\<close>: the library's parser is the parameter
  \<open>parse\<close>. It sees the whole column besides the entry, since the library infers one
  format for the column; an entry it cannot parse becomes \<open>NaT\<close>.
\<close>

definition to_datetime :: "(string list \<Rightarrow> string \<Rightarrow> int option) \<Rightarrow> string list \<Rightarrow> cell list" where
  "to_datetime parse xs = map (\<lambda>s. case parse xs s of None \<Rightarrow> NaN | Some t \<Rightarrow> Stamp t) xs"

text \<open>\<open>df.dropna(subset=[c])\<close>.\<close>

definition dropna :: "frame \<Rightarrow> string \<Rightarrow> exn + frame" where
  "dropna df c =
     (case position c (columns df) of
        None \<Rightarrow> Inl (KeyError c)
      | Some i \<Rightarrow> Inr (df\<lparr>rows := filter (\<lambda>r. r ! i \<noteq> NaN) (rows df)\<rparr>))"

fun stamp :: "cell \<Rightarrow> int" where
  "stamp (Stamp t) = t"
| "stamp _ = 0"

fun is_stamp :: "cell \<Rightarrow> bool" where
  "is_stamp (Stamp t) = True"
| "is_stamp _ = False"

text \<open>
  \<open>df.sort_values(by=c)\<close> on a datetime column without \<open>NaT\<close>: ascending by
  timestamp. The order the library leaves among rows of equal timestamp is its own;
  here they keep their order.
\<close>

definition sort_values :: "frame \<Rightarrow> string \<Rightarrow> exn + frame" where
  "sort_values df c =
     (case position c (columns df) of
        None \<Rightarrow> Inl (KeyError c)
      | Some i \<Rightarrow> Inr (df\<lparr>rows := sort_key (\<lambda>r. stamp (r ! i)) (rows df)\<rparr>))"

text \<open>\<open>df.rename(columns={...})\<close>: a name that is no column is ignored.\<close>

definition rename :: "frame \<Rightarrow> (string \<times> string) list \<Rightarrow> frame" where
  "rename df m = df\<lparr>columns := map (\<lambda>c. case map_of m c of None \<Rightarrow> c | Some c' \<Rightarrow> c') (columns df)\<rparr>"

text \<open>\<open>df.drop(columns=[c])\<close> for a column that exists.\<close>

definition drop_column :: "frame \<Rightarrow> string \<Rightarrow> frame" where
  "drop_column df c =
     \<lparr>columns = filter (\<lambda>n. n \<noteq> c) (columns df),
      rows = map (\<lambda>r. map snd (filter (\<lambda>(n, v). n \<noteq> c) (zip (columns df) r))) (rows df)\<rparr>"

text \<open>\<open>df.empty\<close>: one of the two axes has length 0.\<close>

definition empty_df :: "frame \<Rightarrow> bool" where
  "empty_df df = (rows df = [] \<or> columns df = [])"

fun keep_first :: "'a list \<Rightarrow> 'a list" where
  "keep_first [] = []"
| "keep_first (x # xs) = x # keep_first (filter (\<lambda>y. y \<noteq> x) xs)"

text \<open>
  \<open>df.drop_duplicates()\<close>: of rows equal in every column the first stays. The library
  returns an empty table as it is.
\<close>

definition drop_duplicates :: "frame \<Rightarrow> frame" where
  "drop_duplicates df = (if empty_df df then df else df\<lparr>rows := keep_first (rows df)\<rparr>)"

fun dict_set :: "('k \<times> 'v) list \<Rightarrow> 'k \<Rightarrow> 'v \<Rightarrow> ('k \<times> 'v) list" where
  "dict_set [] k v = [(k, v)]"
| "dict_set ((k', v') # kvs) k v =
     (if k' = k then (k, v) # kvs else (k', v') # dict_set kvs k v)"

section \<open>The nearest-match join\<close>

text \<open>
  \<open>pd.merge_asof(left, right, left_on, right_on, direction='nearest', tolerance)\<close>.
  The keys of both sides must be timestamps in ascending order, else the library
  raises. For a left key the backward candidate is the last right row whose key is not
  larger, the forward candidate the first right row whose key is not smaller; a
  candidate farther than the tolerance is discarded; of two candidates the nearer one
  is taken, the backward one when they are equally near. The output has the rows of the
  left table in their order, each followed by the cells of its right row, or by empty
  cells. Column names that occur on both sides get the suffixes \<open>_x\<close> and \<open>_y\<close>.
\<close>

definition backward_pos :: "int list \<Rightarrow> int \<Rightarrow> nat option" where
  "backward_pos rs l =
     (let n = length (takeWhile (\<lambda>r. r \<le> l) rs) in if n = 0 then None else Some (n - 1))"

definition forward_pos :: "int list \<Rightarrow> int \<Rightarrow> nat option" where
  "forward_pos rs l =
     (let n = length (takeWhile (\<lambda>r. r < l) rs) in if n = length rs then None else Some n)"

definition in_tolerance :: "int \<Rightarrow> (nat \<Rightarrow> int) \<Rightarrow> nat option \<Rightarrow> nat option" where
  "in_tolerance tol diff p =
     (case p of None \<Rightarrow> None | Some j \<Rightarrow> if diff j > tol then None else Some j)"

definition nearest_pos :: "int \<Rightarrow> int list \<Rightarrow> int \<Rightarrow> nat option" where
  "nearest_pos tol rs l =
     (case (in_tolerance tol (\<lambda>j. l - rs ! j) (backward_pos rs l),
            in_tolerance tol (\<lambda>j. rs ! j - l) (forward_pos rs l)) of
        (Some b, Some f) \<Rightarrow> if l - rs ! b \<le> rs ! f - l then Some b else Some f
      | (Some b, None) \<Rightarrow> Some b
      | (None, f) \<Rightarrow> f)"

definition merge_keys :: "frame \<Rightarrow> string \<Rightarrow> exn + int list" where
  "merge_keys df c =
     then_do (getitem df c) (\<lambda>ks.
       if \<not> list_all is_stamp ks then Inl (ValueError ''Merge keys contain null values'')
       else if \<not> sorted (map stamp ks) then Inl (ValueError ''keys must be sorted'')
       else Inr (map stamp ks))"

definition merge_asof :: "frame \<Rightarrow> frame \<Rightarrow> string \<Rightarrow> string \<Rightarrow> int \<Rightarrow> exn + frame" where
  "merge_asof left right left_on right_on tol =
     then_do (merge_keys left left_on) (\<lambda>lk.
     then_do (merge_keys right right_on) (\<lambda>rk.
       Inr \<lparr>columns =
              map (\<lambda>c. if c \<in> set (columns right) then c @ ''_x'' else c) (columns left) @
              map (\<lambda>c. if c \<in> set (columns left) then c @ ''_y'' else c) (columns right),
            rows =
              map (\<lambda>(r, l). r @ (case nearest_pos tol rk l of
                                    None \<Rightarrow> replicate (length (columns right)) NaN
                                  | Some j \<Rightarrow> rows right ! j))
                  (zip (rows left) lk)\<rparr>))"

text \<open>\<open>pd.Timedelta('1 hour')\<close>, in nanoseconds.\<close>

definition tolerance :: int where
  "tolerance = 3600 * 1000000000"

section \<open>The pipeline\<close>

text \<open>
  The messages the function shows (\<open>st.write\<close>, \<open>st.info\<close>, \<open>st.warning\<close>,
  \<open>st.error\<close>, \<open>st.subheader\<close>), in the order of the source text.
\<close>

datatype diag =
    Tide_loaded
  | Tide_error exn
  | Duplicates_removed nat string
  | Sheet_skipped string
  | Temp_error exn
  | No_valid_sheets
  | Merging_data
  | Merging_with string
  | Merged_rows string nat
  | No_data_merged

text \<open>
  How a call ends: \<open>st.stop()\<close> ends the run without a value, an exception outside
  the two \<open>try\<close> blocks leaves the function, \<open>return\<close> gives the mapping from
  sheet name to merged table, in insertion order.
\<close>

datatype outcome = Stopped | Raised exn | Returned "(string \<times> frame) list"

text \<open>
  What the library reads from the two uploaded files: the first sheet of the tide
  file, or the exception of \<open>pd.read_excel\<close>; the sheets of the temperature file by
  name, each with the table or the exception of its own \<open>pd.read_excel\<close>, or the
  exception of \<open>pd.ExcelFile\<close>.
\<close>

type_synonym tide_file = "exn + frame"
type_synonym temp_file = "exn + (string \<times> (exn + frame)) list"

text \<open>
  Lines 57 to 60, and again lines 93 to 96 with the names of the sheet's columns: the
  time column becomes text, the texts of date and time joined by a blank are parsed
  into the timestamp column, the rows without a timestamp go, the rest is sorted.
\<close>

definition compose_timestamp ::
  "(cell \<Rightarrow> string) \<Rightarrow> (string list \<Rightarrow> string \<Rightarrow> int option) \<Rightarrow> frame
     \<Rightarrow> string \<Rightarrow> string \<Rightarrow> string \<Rightarrow> exn + frame" where
  "compose_timestamp to_str parse df date_col time_col stamp_col =
     then_do (getitem df time_col) (\<lambda>time.
     let df1 = setitem df time_col (map Str (astype_str to_str time)) in
     then_do (getitem df1 date_col) (\<lambda>date.
     then_do (getitem df1 time_col) (\<lambda>time'.
     let df2 = setitem df1 stamp_col
                 (to_datetime parse
                    (map (\<lambda>(d, h). d @ '' '' @ h)
                       (zip (astype_str to_str date) (astype_str to_str time')))) in
     then_do (dropna df2 stamp_col) (\<lambda>df3.
     sort_values df3 stamp_col))))"

text \<open>Line 54: the rows whose \<open>Mare\<close> cell is the string \<open>Preia-Mar\<close>.\<close>

definition filter_mares :: "frame \<Rightarrow> exn + frame" where
  "filter_mares df0 =
     then_do (getitem df0 ''Mare'') (\<lambda>mare.
     Inr (mask_rows df0 (map (\<lambda>c. c = Str ''Preia-Mar'') mare)))"

text \<open>Lines 54 to 61: the body of the first \<open>try\<close> after the table is read.\<close>

definition prepare_mares ::
  "(cell \<Rightarrow> string) \<Rightarrow> (string list \<Rightarrow> string \<Rightarrow> int option) \<Rightarrow> frame \<Rightarrow> exn + frame" where
  "prepare_mares to_str parse df0 =
     then_do (filter_mares df0) (\<lambda>df1.
     then_do (compose_timestamp to_str parse df1 ''Data'' ''Hora'' ''Mares_DateTime'') (\<lambda>df5.
     Inr (rename df5 [(''Alt'', ''Mares_Alt''), (''Mare'', ''Mares_Mare'')])))"

text \<open>Lines 77 and 78: the provenance column goes when the sheet has one.\<close>

definition drop_provenance :: "frame \<Rightarrow> frame" where
  "drop_provenance df0 =
     (if ''ficheiro.origem'' \<in> set (columns df0) then drop_column df0 ''ficheiro.origem''
      else df0)"

text \<open>Lines 81 to 83: the duplicate rows go, and are counted.\<close>

definition clean_sheet :: "frame \<Rightarrow> frame" where
  "clean_sheet df0 = drop_duplicates (drop_provenance df0)"

definition duplicates_removed :: "frame \<Rightarrow> nat" where
  "duplicates_removed df0 =
     length (rows (drop_provenance df0)) - length (rows (clean_sheet df0))"

text \<open>Line 88: the test that skips a sheet.\<close>

definition sheet_skipped :: "frame \<Rightarrow> bool" where
  "sheet_skipped df2 \<longleftrightarrow>
     empty_df df2 \<or> ''Date'' \<notin> set (columns df2) \<or> ''time'' \<notin> set (columns df2)"

text \<open>
  Lines 76 to 96, one turn of the loop over the sheets: the messages, and the exception,
  \<open>None\<close> for a skipped sheet, or the normalized table.
\<close>

definition prepare_sheet ::
  "(cell \<Rightarrow> string) \<Rightarrow> (string list \<Rightarrow> string \<Rightarrow> int option) \<Rightarrow> string \<Rightarrow> frame
     \<Rightarrow> diag list \<times> (exn + frame option)" where
  "prepare_sheet to_str parse sheet_name df0 =
     (let df2 = clean_sheet df0;
          n = duplicates_removed df0;
          warned = (if n > 0 then [Duplicates_removed n sheet_name] else [])
      in if sheet_skipped df2
         then (warned @ [Sheet_skipped sheet_name], Inr None)
         else (warned, map_sum id Some (compose_timestamp to_str parse df2 ''Date'' ''time'' ''Temp_DateTime'')))"

text \<open>
  Lines 73 to 98: the loop. An exception in any turn leaves the loop for the handler
  of line 100, which surrounds the whole loop.
\<close>

fun prepare_temps ::
  "(cell \<Rightarrow> string) \<Rightarrow> (string list \<Rightarrow> string \<Rightarrow> int option)
     \<Rightarrow> (string \<times> (exn + frame)) list \<Rightarrow> (string \<times> frame) list
     \<Rightarrow> diag list \<times> (exn + (string \<times> frame) list)" where
  "prepare_temps to_str parse [] processed = ([], Inr processed)"
| "prepare_temps to_str parse ((sheet_name, sheet) # rest) processed =
     (case sheet of
        Inl e \<Rightarrow> ([], Inl e)
      | Inr df0 \<Rightarrow>
          (case prepare_sheet to_str parse sheet_name df0 of
             (msgs, Inl e) \<Rightarrow> (msgs, Inl e)
           | (msgs, Inr None) \<Rightarrow>
               (case prepare_temps to_str parse rest processed of
                  (msgs', r) \<Rightarrow> (msgs @ msgs', r))
           | (msgs, Inr (Some df)) \<Rightarrow>
               (case prepare_temps to_str parse rest (dict_set processed sheet_name df) of
                  (msgs', r) \<Rightarrow> (msgs @ msgs', r))))"

text \<open>Line 122: every row of a merged table gets the name of its sheet.\<close>

definition tag_sheet :: "string \<Rightarrow> frame \<Rightarrow> frame" where
  "tag_sheet sheet_name m =
     setitem m ''Source_Temp_Sheet'' (replicate (length (rows m)) (Str sheet_name))"

text \<open>Lines 112 to 124: the loop of the merges, outside any \<open>try\<close>.\<close>

fun merge_sheets ::
  "frame \<Rightarrow> (string \<times> frame) list \<Rightarrow> (string \<times> frame) list
     \<Rightarrow> diag list \<times> (exn + (string \<times> frame) list)" where
  "merge_sheets df_mares [] merged = ([], Inr merged)"
| "merge_sheets df_mares ((sheet_name, df_temp) # rest) merged =
     (case merge_asof df_mares df_temp ''Mares_DateTime'' ''Temp_DateTime'' tolerance of
        Inl e \<Rightarrow> ([Merging_with sheet_name], Inl e)
      | Inr m \<Rightarrow>
          (let m' = tag_sheet sheet_name m
           in case merge_sheets df_mares rest (dict_set merged sheet_name m') of
                (msgs, r) \<Rightarrow>
                  (Merging_with sheet_name # Merged_rows sheet_name (length (rows m')) # msgs, r)))"

definition process_and_merge_data ::
  "(cell \<Rightarrow> string) \<Rightarrow> (string list \<Rightarrow> string \<Rightarrow> int option) \<Rightarrow> tide_file \<Rightarrow> temp_file
     \<Rightarrow> diag list \<times> outcome" where
  "process_and_merge_data to_str parse tide_file temp_file =
     (case tide_file of
        Inl e \<Rightarrow> ([Tide_error e], Stopped)
      | Inr df0 \<Rightarrow>
     (case prepare_mares to_str parse df0 of
        Inl e \<Rightarrow> ([Tide_loaded, Tide_error e], Stopped)
      | Inr df_mares \<Rightarrow>
     (case (case temp_file of
              Inl e \<Rightarrow> ([], Inl e)
            | Inr sheets \<Rightarrow> prepare_temps to_str parse sheets []) of
        (msgs, Inl e) \<Rightarrow> (Tide_loaded # msgs @ [Temp_error e], Stopped)
      | (msgs, Inr processed) \<Rightarrow>
          if processed = [] then (Tide_loaded # msgs @ [No_valid_sheets], Stopped)
          else
            (case merge_sheets df_mares processed [] of
               (msgs', Inl e) \<Rightarrow> (Tide_loaded # msgs @ Merging_data # msgs', Raised e)
             | (msgs', Inr merged) \<Rightarrow>
                 if merged = []
                 then (Tide_loaded # msgs @ Merging_data # msgs' @ [No_data_merged], Stopped)
                 else (Tide_loaded # msgs @ Merging_data # msgs', Returned merged)))))"

section \<open>The events that count\<close>

text \<open>
  The texts that are parsed into the timestamps of a table: for each row the text of
  the date cell, a blank, the text of the time cell.
\<close>

definition stamp_texts :: "(cell \<Rightarrow> string) \<Rightarrow> frame \<Rightarrow> nat \<Rightarrow> nat \<Rightarrow> string list" where
  "stamp_texts to_str df di ti =
     map (\<lambda>r. cell_text to_str (r ! di) @ '' '' @ cell_text to_str (r ! ti)) (rows df)"

text \<open>
  The number of rows of the tide table whose \<open>Mare\<close> cell is \<open>Preia-Mar\<close> and
  whose texts of \<open>Data\<close> and \<open>Hora\<close> make a timestamp the parser accepts.
\<close>

definition event_count ::
  "(cell \<Rightarrow> string) \<Rightarrow> (string list \<Rightarrow> string \<Rightarrow> int option) \<Rightarrow> frame \<Rightarrow> nat" where
  "event_count to_str parse tide =
     (case (position ''Mare'' (columns tide), position ''Data'' (columns tide),
            position ''Hora'' (columns tide)) of
        (Some mi, Some di, Some hi) \<Rightarrow>
          (let events = tide\<lparr>rows := filter (\<lambda>r. r ! mi = Str ''Preia-Mar'') (rows tide)\<rparr>;
               texts = stamp_texts to_str events di hi
           in length (filter (\<lambda>s. parse texts s \<noteq> None) texts))
      | _ \<Rightarrow> 0)"

section \<open>The result cache\<close>





section \<open>Workbooks whose sheets can all be read\<close>



section \<open>Sample inputs\<close>

text \<open>
  Concrete tables, used where a theorem is applied to an input. The sample parser knows
  the timestamps of the texts that occur in them (nanoseconds since 1970); the sample
  text of a cell that is no string is \<open>nan\<close>.
\<close>

definition sample_parse :: "string list \<Rightarrow> string \<Rightarrow> int option" where
  "sample_parse xs = map_of
     [(''2024-01-01 07:00:00'', 1704092400000000000),
      (''2024-01-01 08:00:00'', 1704096000000000000),
      (''2024-01-01 08:05:00'', 1704096300000000000),
      (''2024-01-01 08:59:59'', 1704099599000000000),
      (''2024-01-01 09:00:01'', 1704099601000000000),
      (''2024-01-01 14:00:00'', 1704117600000000000),
      (''2024-01-01 15:00:01'', 1704121201000000000)]"

definition sample_str :: "cell \<Rightarrow> string" where
  "sample_str c = ''nan''"

definition sample_tide :: frame where
  "sample_tide =
     \<lparr>columns = [''Data'', ''Hora'', ''Mare'', ''Alt''],
      rows = [[Str ''2024-01-01'', Str ''14:00:00'', Str ''Baixa-Mar'', Num (3 / 10)],
              [Str ''2024-01-01'', Str ''08:00:00'', Str ''Preia-Mar'', Num (21 / 10)]]\<rparr>"


definition sample_sheet :: frame where
  "sample_sheet =
     \<lparr>columns = [''Date'', ''time'', ''CaboSines''],
      rows = [[Str ''2024-01-01'', Str ''08:05:00'', Num (182 / 10)]]\<rparr>"


definition sample_sheet_origin :: frame where
  "sample_sheet_origin =
     \<lparr>columns = [''Date'', ''time'', ''ficheiro.origem'', ''CaboSines''],
      rows = [[Str ''2024-01-01'', Str ''08:05:00'', Str ''a.csv'', Num (182 / 10)],
              [Str ''2024-01-01'', Str ''08:05:00'', Str ''b.csv'', Num (182 / 10)]]\<rparr>"

definition sample_tide_types :: frame where
  "sample_tide_types =
     \<lparr>columns = [''Data'', ''Hora'', ''Mare'', ''Alt''],
      rows = [[Str ''2024-01-01'', Str ''07:00:00'', Str ''preia-mar'', Num (19 / 10)],
              [Str ''2024-01-01'', Str ''08:00:00'', Str ''Preia-Mar'', Num (21 / 10)],
              [Str ''2024-01-01'', Str ''08:05:00'', Str '' Preia-Mar'', Num (20 / 10)],
              [Str ''2024-01-01'', Str ''14:00:00'', Str ''Preia-Mar '', Num (22 / 10)],
              [Str ''2024-01-01'', Str ''15:00:01'', NaN, Num (23 / 10)]]\<rparr>"






definition sample_merged :: frame where
  "sample_merged =
     \<lparr>columns = [''Data'', ''Hora'', ''Mares_Mare'', ''Mares_Alt'', ''Mares_DateTime'',
                 ''Date'', ''time'', ''CaboSines'', ''Temp_DateTime'', ''Source_Temp_Sheet''],
      rows = [[Str ''2024-01-01'', Str ''08:00:00'', Str ''Preia-Mar'', Num (21 / 10),
               Stamp 1704096000000000000, Str ''2024-01-01'', Str ''08:05:00'',
               Num (182 / 10), Stamp 1704096300000000000, Str ''A'']]\<rparr>"

definition sample_tide_unsorted :: frame where
  "sample_tide_unsorted =
     \<lparr>columns = [''Data'', ''Hora'', ''Mare'', ''Alt''],
      rows = [[Str ''2024-01-01'', Str ''14:00:00'', Str ''Preia-Mar'', Num (23 / 10)],
              [Str ''2024-01-01'', Str ''11:00:00'', Str ''Baixa-Mar'', Num (3 / 10)],
              [Str ''2024-01-01'', Str ''08:00:00'', Str ''Preia-Mar'', Num (21 / 10)]]\<rparr>"

definition sample_merged_two :: frame where
  "sample_merged_two =
     \<lparr>columns = [''Data'', ''Hora'', ''Mares_Mare'', ''Mares_Alt'', ''Mares_DateTime'',
                 ''Date'', ''time'', ''CaboSines'', ''Temp_DateTime'', ''Source_Temp_Sheet''],
      rows = [[Str ''2024-01-01'', Str ''08:00:00'', Str ''Preia-Mar'', Num (21 / 10),
               Stamp 1704096000000000000, Str ''2024-01-01'', Str ''08:05:00'',
               Num (182 / 10), Stamp 1704096300000000000, Str ''A''],
              [Str ''2024-01-01'', Str ''14:00:00'', Str ''Preia-Mar'', Num (23 / 10),
               Stamp 1704117600000000000, NaN, NaN, NaN, NaN, Str ''A'']]\<rparr>"




definition sample_tide_no_value :: frame where
  "sample_tide_no_value =
     \<lparr>columns = [''Data'', ''Hora'', ''Mare''],
      rows = [[Str ''2024-01-01'', Str ''08:00:00'', Str ''Preia-Mar'']]\<rparr>"

section \<open>Basic facts\<close>

lemma position_None_iff: "position x xs = None \<longleftrightarrow> x \<notin> set xs"
  by (induction xs) auto

lemma position_SomeD: "position x xs = Some i \<Longrightarrow> i < length xs \<and> xs ! i = x"
  by (induction xs arbitrary: i) (auto split: if_splits)

lemma position_first: "position x xs = Some i \<Longrightarrow> j < i \<Longrightarrow> xs ! j \<noteq> x"
proof (induction xs arbitrary: i j)
  case Nil then show ?case by simp
next
  case (Cons y ys)
  then show ?case by (cases j) (auto split: if_splits)
qed

lemma position_in_set: "x \<in> set xs \<Longrightarrow> \<exists>i. position x xs = Some i"
  using position_None_iff [of x xs] by (cases "position x xs") auto

lemma getitem_missing: "c \<notin> set (columns df) \<Longrightarrow> getitem df c = Inl (KeyError c)"
  by (simp add: getitem_def position_None_iff [THEN iffD2])

lemma columns_mask_rows [simp]: "columns (mask_rows df keep) = columns df"
  by (simp add: mask_rows_def)

lemma columns_setitem_present:
  "c \<in> set (columns df) \<Longrightarrow> columns (setitem df c vs) = columns df"
  by (auto simp: setitem_def dest: position_in_set)

lemma getitem_present: "c \<in> set (columns df) \<Longrightarrow> \<exists>vs. getitem df c = Inr vs"
  by (auto simp: getitem_def dest: position_in_set)

lemma compose_missing_time:
  "tc \<notin> set (columns df) \<Longrightarrow> compose_timestamp to_str parse df dc tc sc = Inl (KeyError tc)"
  by (simp add: compose_timestamp_def getitem_missing then_do_def)

lemma compose_missing_date:
  assumes "tc \<in> set (columns df)" "dc \<notin> set (columns df)"
  shows "compose_timestamp to_str parse df dc tc sc = Inl (KeyError dc)"
proof -
  obtain vs where vs: "getitem df tc = Inr vs" using getitem_present [OF assms(1)] by blast
  have "dc \<notin> set (columns (setitem df tc (map Str (astype_str to_str vs))))"
    using assms by (simp add: columns_setitem_present)
  then show ?thesis
    by (simp add: compose_timestamp_def vs then_do_def getitem_missing Let_def)
qed

lemma prepare_mares_missing:
  assumes "''Mare'' \<notin> set (columns df) \<or> ''Hora'' \<notin> set (columns df) \<or> ''Data'' \<notin> set (columns df)"
  shows "\<exists>c. prepare_mares to_str parse df = Inl (KeyError c) \<and> c \<in> {''Mare'', ''Hora'', ''Data''} \<and> c \<notin> set (columns df)"
proof (cases "''Mare'' \<in> set (columns df)")
  case False
  then show ?thesis by (simp add: prepare_mares_def filter_mares_def getitem_missing then_do_def)
next
  case mare: True
  then obtain vs where vs: "getitem df ''Mare'' = Inr vs" using getitem_present by blast
  show ?thesis
  proof (cases "''Hora'' \<in> set (columns df)")
    case False
    then show ?thesis
      by (simp add: prepare_mares_def filter_mares_def vs then_do_def Let_def compose_missing_time)
  next
    case True
    with mare assms have "''Data'' \<notin> set (columns df)" by blast
    with True show ?thesis
      by (simp add: prepare_mares_def filter_mares_def vs then_do_def Let_def compose_missing_date)
  qed
qed

section \<open>Failure of the event input\<close>



section \<open>First occurrences\<close>

lemma set_keep_first: "set (keep_first xs) = set xs"
  by (induction xs rule: keep_first.induct) auto

lemma distinct_keep_first: "distinct (keep_first xs)"
  by (induction xs rule: keep_first.induct) (auto simp: set_keep_first)


lemma distinct_occurs_once:
  "distinct xs \<Longrightarrow> x \<in> set xs \<Longrightarrow> length (filter (\<lambda>y. y = x) xs) = 1"
  by (induction xs) (auto simp: filter_empty_conv)

lemma columns_drop_duplicates [simp]: "columns (drop_duplicates df) = columns df"
  by (simp add: drop_duplicates_def)

lemma rows_drop_duplicates:
  "columns df \<noteq> [] \<Longrightarrow> rows (drop_duplicates df) = keep_first (rows df)"
  by (cases "rows df") (auto simp: drop_duplicates_def empty_df_def)

lemma filter_neq_id: "c \<notin> set cs \<Longrightarrow> filter (\<lambda>n. n \<noteq> c) cs = cs"
  by (induction cs) auto

lemma strip_keeps_others:
  "length vs = length ns \<Longrightarrow> c \<notin> set ns \<Longrightarrow>
   map snd (filter (\<lambda>(n, v). n \<noteq> c) (zip ns vs)) = vs"
  by (induction vs ns rule: list_induct2) auto

lemma strip_column:
  assumes "length xs = length cs1" "c \<notin> set cs1" "c \<notin> set cs2" "length ys = length cs2"
  shows "map snd (filter (\<lambda>(n, v). n \<noteq> c) (zip (cs1 @ c # cs2) (xs @ a # ys))) = xs @ ys"
proof -
  have "zip (cs1 @ c # cs2) (xs @ a # ys) = zip cs1 xs @ (c, a) # zip cs2 ys"
    using assms(1) by simp
  then show ?thesis using assms by (simp add: strip_keeps_others)
qed

section \<open>Cleaning a sheet\<close>




text \<open>
  C10. The provenance column is dropped before the duplicates are looked for: two rows
  of a sheet that agree in every column but \<open>ficheiro.origem\<close> leave one row in
  the cleaned table.
\<close>

theorem provenance_ignored_by_duplicates:
  assumes "columns df0 = cs1 @ ''ficheiro.origem'' # cs2"
      and "''ficheiro.origem'' \<notin> set cs1" "''ficheiro.origem'' \<notin> set cs2"
      and "cs1 @ cs2 \<noteq> []"
      and "xs @ a # ys \<in> set (rows df0)" "xs @ b # ys \<in> set (rows df0)"
      and "length xs = length cs1" "length ys = length cs2"
  shows "columns (clean_sheet df0) = cs1 @ cs2 \<and>
         length (filter (\<lambda>r. r = xs @ ys) (rows (clean_sheet df0))) = 1"
proof -
  let ?c = "''ficheiro.origem''"
  have dp: "drop_provenance df0 = drop_column df0 ?c"
    using assms(1) by (simp add: drop_provenance_def)
  have cols: "columns (drop_column df0 ?c) = cs1 @ cs2"
    using assms(1-3) by (simp add: drop_column_def filter_neq_id)
  have "map snd (filter (\<lambda>(n, v). n \<noteq> ?c) (zip (columns df0) (xs @ a # ys))) = xs @ ys"
    unfolding assms(1) using assms by (intro strip_column) auto
  then have "xs @ ys \<in> set (rows (drop_column df0 ?c))"
    using assms(5) by (force simp: drop_column_def)
  moreover have "rows (clean_sheet df0) = keep_first (rows (drop_column df0 ?c))"
    using cols assms(4) by (simp add: clean_sheet_def dp rows_drop_duplicates)
  ultimately show ?thesis
    by (simp add: distinct_occurs_once distinct_keep_first set_keep_first clean_sheet_def dp cols)
qed

theorem provenance_ignored_by_duplicates_witness:
  "rows (clean_sheet sample_sheet_origin) =
     [[Str ''2024-01-01'', Str ''08:05:00'', Num (182 / 10)]] \<and>
   length (filter (\<lambda>r. r = [Str ''2024-01-01'', Str ''08:05:00''] @ [Num (182 / 10)])
             (rows (clean_sheet sample_sheet_origin))) = 1"
proof -
  have "length (filter (\<lambda>r. r = [Str ''2024-01-01'', Str ''08:05:00''] @ [Num (182 / 10)])
             (rows (clean_sheet sample_sheet_origin))) = 1"
    using provenance_ignored_by_duplicates [of sample_sheet_origin "[''Date'', ''time'']"
        "[''CaboSines'']" "[Str ''2024-01-01'', Str ''08:05:00'']" "Str ''a.csv''"
        "[Num (182 / 10)]" "Str ''b.csv''"]
    by (simp add: sample_sheet_origin_def)
  moreover have "rows (clean_sheet sample_sheet_origin) =
     [[Str ''2024-01-01'', Str ''08:05:00'', Num (182 / 10)]]"
    by (simp add: clean_sheet_def drop_provenance_def drop_column_def sample_sheet_origin_def
        drop_duplicates_def empty_df_def)
  ultimately show ?thesis by blast
qed

section \<open>What the cache holds\<close>




section \<open>Repeated calls\<close>



section \<open>Columns and timestamps\<close>

lemma rectangular_iff: "rectangular df \<longleftrightarrow> (\<forall>r \<in> set (rows df). length r = length (columns df))"
  by (simp add: rectangular_def list_all_iff)

lemma map_zip_same: "map h (zip xs (map f xs)) = map (\<lambda>x. h (x, f x)) xs"
  by (induction xs) auto

lemma mask_by_column: "map fst (filter snd (zip xs (map p xs))) = filter p xs"
  by (induction xs) auto

lemma position_append_other: "c' \<noteq> c \<Longrightarrow> position c' (cs @ [c]) = position c' cs"
  by (induction cs) auto

lemma position_append_new: "c \<notin> set cs \<Longrightarrow> position c (cs @ [c]) = Some (length cs)"
  by (induction cs) auto

lemma rectangular_setitem:
  assumes "rectangular df"
  shows "rectangular (setitem df c vs)"
  using assms
  by (auto simp: rectangular_iff setitem_def split: option.splits dest: set_zip_leftD)

lemma nth_zip_update:
  "length xs = length vs \<Longrightarrow> \<forall>r \<in> set xs. i < length r \<Longrightarrow>
   map (\<lambda>r. r ! i) (map (\<lambda>(r, v). r[i := v]) (zip xs vs)) = vs"
  by (induction xs vs rule: list_induct2) auto

lemma nth_zip_snoc:
  "length xs = length vs \<Longrightarrow> \<forall>r \<in> set xs. length r = n \<Longrightarrow>
   map (\<lambda>r. r ! n) (map (\<lambda>(r, v). r @ [v]) (zip xs vs)) = vs"
  by (induction xs vs rule: list_induct2) auto

lemma nth_zip_update_other:
  "length xs = length vs \<Longrightarrow> j \<noteq> i \<Longrightarrow>
   map (\<lambda>r. r ! j) (map (\<lambda>(r, v). r[i := v]) (zip xs vs)) = map (\<lambda>r. r ! j) xs"
  by (induction xs vs rule: list_induct2) auto

lemma nth_zip_snoc_other:
  "length xs = length vs \<Longrightarrow> \<forall>r \<in> set xs. j < length r \<Longrightarrow>
   map (\<lambda>r. r ! j) (map (\<lambda>(r, v). r @ [v]) (zip xs vs)) = map (\<lambda>r. r ! j) xs"
  by (induction xs vs rule: list_induct2) (auto simp: nth_append)

lemma setitem_column:
  assumes "rectangular df" "length vs = length (rows df)"
  shows "\<exists>k. position c (columns (setitem df c vs)) = Some k \<and>
             map (\<lambda>r. r ! k) (rows (setitem df c vs)) = vs \<and>
             k = (case position c (columns df) of Some i \<Rightarrow> i | None \<Rightarrow> length (columns df))"
proof (cases "position c (columns df)")
  case None
  then have nin: "c \<notin> set (columns df)" by (simp add: position_None_iff)
  have "map (\<lambda>r. r ! length (columns df)) (map (\<lambda>(r, v). r @ [v]) (zip (rows df) vs)) = vs"
    using assms by (intro nth_zip_snoc) (auto simp: rectangular_iff)
  then show ?thesis using None nin by (simp add: setitem_def position_append_new)
next
  case (Some i)
  then have i: "i < length (columns df)" using position_SomeD by fastforce
  have "map (\<lambda>r. r ! i) (map (\<lambda>(r, v). r[i := v]) (zip (rows df) vs)) = vs"
    using assms i by (intro nth_zip_update) (auto simp: rectangular_iff)
  then show ?thesis using Some by (simp add: setitem_def)
qed

lemma setitem_other_column:
  assumes "rectangular df" "length vs = length (rows df)"
      and "j < length (columns df)" "columns df ! j \<noteq> c"
  shows "map (\<lambda>r. r ! j) (rows (setitem df c vs)) = map (\<lambda>r. r ! j) (rows df)"
proof (cases "position c (columns df)")
  case None
  have "map (\<lambda>r. r ! j) (map (\<lambda>(r, v). r @ [v]) (zip (rows df) vs)) = map (\<lambda>r. r ! j) (rows df)"
    using assms by (intro nth_zip_snoc_other) (auto simp: rectangular_iff)
  then show ?thesis using None by (simp add: setitem_def)
next
  case (Some i)
  then have "j \<noteq> i" using position_SomeD [OF Some] assms(4) by auto
  then have "map (\<lambda>r. r ! j) (map (\<lambda>(r, v). r[i := v]) (zip (rows df) vs)) = map (\<lambda>r. r ! j) (rows df)"
    using assms by (intro nth_zip_update_other) auto
  then show ?thesis using Some by (simp add: setitem_def)
qed

lemma length_rows_setitem:
  "length vs = length (rows df) \<Longrightarrow> length (rows (setitem df c vs)) = length (rows df)"
  by (simp add: setitem_def split: option.splits)

lemma columns_setitem:
  "columns (setitem df c vs) = (if c \<in> set (columns df) then columns df else columns df @ [c])"
  using position_None_iff [of c "columns df"]
  by (cases "position c (columns df)") (auto simp: setitem_def)

lemma position_setitem_other:
  "c' \<noteq> c \<Longrightarrow> position c' (columns (setitem df c vs)) = position c' (columns df)"
  by (simp add: columns_setitem position_append_other)

lemma cell_text_Str [simp]: "cell_text to_str (Str s) = s"
  by (simp add: cell_text_def)

lemma to_datetime_cells: "c \<in> set (to_datetime parse xs) \<Longrightarrow> c = NaN \<or> is_stamp c"
  by (auto simp: to_datetime_def split: option.splits)

lemma length_to_datetime [simp]: "length (to_datetime parse xs) = length xs"
  by (simp add: to_datetime_def)

lemma is_stamp_iff: "is_stamp c \<longleftrightarrow> c = Stamp (stamp c)"
  by (cases c) auto

lemma compose_timestamp_result:
  assumes rect: "rectangular df"
      and ti: "position tc (columns df) = Some ti"
      and di: "position dc (columns df) = Some di"
  shows "\<exists>out k. compose_timestamp to_str parse df dc tc sc = Inr out \<and>
           rectangular out \<and>
           columns out = (if sc \<in> set (columns df) then columns df else columns df @ [sc]) \<and>
           position sc (columns out) = Some k \<and>
           k = (case position sc (columns df) of Some i \<Rightarrow> i | None \<Rightarrow> length (columns df)) \<and>
           (\<forall>r \<in> set (rows out). is_stamp (r ! k)) \<and>
           sorted (map (\<lambda>r. stamp (r ! k)) (rows out)) \<and>
           length (rows out) =
             length (filter (\<lambda>c. c \<noteq> NaN) (to_datetime parse (stamp_texts to_str df di ti))) \<and>
           (\<forall>j < length (columns df). columns df ! j \<noteq> tc \<longrightarrow> columns df ! j \<noteq> sc \<longrightarrow>
              set (map (\<lambda>r. r ! j) (rows out)) \<subseteq> set (map (\<lambda>r. r ! j) (rows df)))"
proof -
  let ?txt = "cell_text to_str"
  have til: "ti < length (columns df)" "columns df ! ti = tc"
    using position_SomeD [OF ti] by simp_all
  have dil: "di < length (columns df)" "columns df ! di = dc"
    using position_SomeD [OF di] by simp_all
  have len: "\<And>r. r \<in> set (rows df) \<Longrightarrow> length r = length (columns df)"
    using rect by (simp add: rectangular_iff)
  \<comment> \<open>the time column as text\<close>
  define time where "time = map (\<lambda>r. r ! ti) (rows df)"
  have g0: "getitem df tc = Inr time" by (simp add: getitem_def ti time_def)
  define df1 where "df1 = setitem df tc (map Str (astype_str to_str time))"
  have l1: "length (map Str (astype_str to_str time)) = length (rows df)"
    by (simp add: time_def astype_str_def)
  have rect1: "rectangular df1" unfolding df1_def by (rule rectangular_setitem [OF rect])
  have cols1: "columns df1 = columns df"
    using til by (simp add: df1_def columns_setitem) (metis nth_mem)
  have rows1: "length (rows df1) = length (rows df)"
    unfolding df1_def by (rule length_rows_setitem [OF l1])
  have time1: "map (\<lambda>r. r ! ti) (rows df1) = map Str (astype_str to_str time)"
    using setitem_column [OF rect l1, of tc] ti by (simp add: df1_def)
  have other1: "\<And>j. j < length (columns df) \<Longrightarrow> columns df ! j \<noteq> tc \<Longrightarrow>
      map (\<lambda>r. r ! j) (rows df1) = map (\<lambda>r. r ! j) (rows df)"
    unfolding df1_def by (rule setitem_other_column [OF rect l1])
  have g1: "getitem df1 dc = Inr (map (\<lambda>r. r ! di) (rows df1))"
    by (simp add: getitem_def cols1 di)
  have g2: "getitem df1 tc = Inr (map (\<lambda>r. r ! ti) (rows df1))"
    by (simp add: getitem_def cols1 ti)
  have t_txt: "astype_str to_str (map (\<lambda>r. r ! ti) (rows df1)) = map (\<lambda>r. ?txt (r ! ti)) (rows df)"
    by (simp add: time1 astype_str_def time_def comp_def)
  have d_txt: "astype_str to_str (map (\<lambda>r. r ! di) (rows df1)) = map (\<lambda>r. ?txt (r ! di)) (rows df)"
  proof (cases "dc = tc")
    case True
    then have "di = ti" using ti di by simp
    then show ?thesis using t_txt by simp
  next
    case False
    from other1 [OF dil(1)] False dil(2)
    have "map (\<lambda>r. r ! di) (rows df1) = map (\<lambda>r. r ! di) (rows df)" by simp
    then show ?thesis by (simp add: astype_str_def comp_def)
  qed
  define texts where "texts = stamp_texts to_str df di ti"
  have texts: "map (\<lambda>(d, h). d @ '' '' @ h)
      (zip (astype_str to_str (map (\<lambda>r. r ! di) (rows df1)))
           (astype_str to_str (map (\<lambda>r. r ! ti) (rows df1)))) = texts"
    by (simp add: t_txt d_txt texts_def stamp_texts_def zip_map_map zip_same_conv_map comp_def)
  \<comment> \<open>the timestamp column\<close>
  define ts where "ts = to_datetime parse texts"
  define df2 where "df2 = setitem df1 sc ts"
  have l2: "length ts = length (rows df1)"
    by (simp add: ts_def texts_def stamp_texts_def rows1)
  have rect2: "rectangular df2" unfolding df2_def by (rule rectangular_setitem [OF rect1])
  have cols2: "columns df2 = (if sc \<in> set (columns df) then columns df else columns df @ [sc])"
    by (simp add: df2_def columns_setitem cols1)
  obtain k where k: "position sc (columns df2) = Some k"
    and colk: "map (\<lambda>r. r ! k) (rows df2) = ts"
    and kdef1: "k = (case position sc (columns df1) of Some i \<Rightarrow> i | None \<Rightarrow> length (columns df1))"
    using setitem_column [OF rect1 l2, of sc] unfolding df2_def by blast
  have kdef: "k = (case position sc (columns df) of Some i \<Rightarrow> i | None \<Rightarrow> length (columns df))"
    using kdef1 unfolding cols1 .
  have other2: "\<And>j. j < length (columns df) \<Longrightarrow> columns df ! j \<noteq> sc \<Longrightarrow>
      map (\<lambda>r. r ! j) (rows df2) = map (\<lambda>r. r ! j) (rows df1)"
    unfolding df2_def using setitem_other_column [OF rect1 l2] by (simp add: cols1)
  \<comment> \<open>the rows without a timestamp go, the rest is sorted\<close>
  define df3 where "df3 = df2\<lparr>rows := filter (\<lambda>r. r ! k \<noteq> NaN) (rows df2)\<rparr>"
  define out where "out = df3\<lparr>rows := sort_key (\<lambda>r. stamp (r ! k)) (rows df3)\<rparr>"
  have d3: "dropna df2 sc = Inr df3" by (simp add: dropna_def k df3_def)
  have s3: "sort_values df3 sc = Inr out" by (simp add: sort_values_def k df3_def out_def)
  have res: "compose_timestamp to_str parse df dc tc sc = Inr out"
    unfolding compose_timestamp_def
    by (simp add: g0 then_do_def Let_def df1_def [symmetric] g1 g2 texts [simplified]
        ts_def [symmetric] df2_def [symmetric] d3 s3)
  have set_out: "set (rows out) = {r \<in> set (rows df2). r ! k \<noteq> NaN}"
    by (auto simp: out_def df3_def)
  have cols_out: "columns out = columns df2" by (simp add: out_def df3_def)
  have rect_out: "rectangular out"
    using rect2 by (auto simp: rectangular_iff set_out cols_out)
  have stamps: "\<forall>r \<in> set (rows out). is_stamp (r ! k)"
  proof
    fix r assume r: "r \<in> set (rows out)"
    then have "r ! k \<in> set ts" using colk by (auto simp: set_out)
    then show "is_stamp (r ! k)"
      using r to_datetime_cells [of "r ! k" parse texts] by (auto simp: ts_def set_out)
  qed
  have srt: "sorted (map (\<lambda>r. stamp (r ! k)) (rows out))"
    by (simp add: out_def)
  have "length (rows out) = length (filter (\<lambda>r. r ! k \<noteq> NaN) (rows df2))"
    by (simp add: out_def df3_def)
  also have "\<dots> = length (filter (\<lambda>c. c \<noteq> NaN) (map (\<lambda>r. r ! k) (rows df2)))"
    by (simp add: filter_map comp_def)
  finally have cnt: "length (rows out) = length (filter (\<lambda>c. c \<noteq> NaN) (to_datetime parse texts))"
    by (simp add: colk ts_def)
  have keep: "\<forall>j < length (columns df). columns df ! j \<noteq> tc \<longrightarrow> columns df ! j \<noteq> sc \<longrightarrow>
              set (map (\<lambda>r. r ! j) (rows out)) \<subseteq> set (map (\<lambda>r. r ! j) (rows df))"
  proof (intro allI impI)
    fix j assume j: "j < length (columns df)" "columns df ! j \<noteq> tc" "columns df ! j \<noteq> sc"
    have "set (map (\<lambda>r. r ! j) (rows out)) \<subseteq> set (map (\<lambda>r. r ! j) (rows df2))"
      by (auto simp: set_out)
    also have "map (\<lambda>r. r ! j) (rows df2) = map (\<lambda>r. r ! j) (rows df)"
      using other2 [OF j(1,3)] other1 [OF j(1,2)] by simp
    finally show "set (map (\<lambda>r. r ! j) (rows out)) \<subseteq> set (map (\<lambda>r. r ! j) (rows df))" .
  qed
  show ?thesis
    using res rect_out cols_out cols2 k kdef stamps srt cnt keep
    unfolding texts_def by (intro exI [of _ out] exI [of _ k]) simp
qed

section \<open>The candidates of the join\<close>











lemma merge_keys_Inr:
  assumes "merge_keys df c = Inr ks"
  shows "\<exists>k. position c (columns df) = Some k \<and> ks = map (\<lambda>r. stamp (r ! k)) (rows df) \<and>
             (\<forall>r \<in> set (rows df). is_stamp (r ! k)) \<and> sorted ks"
  using assms
  by (auto simp: merge_keys_def getitem_def then_do_def list_all_iff comp_def
      split: option.splits if_splits)

lemma merge_asof_Inr:
  assumes "merge_asof left right lo ro tol = Inr m"
  shows "\<exists>lk rk. merge_keys left lo = Inr lk \<and> merge_keys right ro = Inr rk \<and>
           rows m = map (\<lambda>(r, l). r @ (case nearest_pos tol rk l of
                                         None \<Rightarrow> replicate (length (columns right)) NaN
                                       | Some j \<Rightarrow> rows right ! j))
                        (zip (rows left) lk) \<and>
           columns m =
             map (\<lambda>c. if c \<in> set (columns right) then c @ ''_x'' else c) (columns left) @
             map (\<lambda>c. if c \<in> set (columns left) then c @ ''_y'' else c) (columns right)"
  using assms
  by (cases "merge_keys left lo"; cases "merge_keys right ro")
     (auto simp: merge_asof_def then_do_def)



lemma position_map_fixed:
  "(\<And>c. x = f c \<longleftrightarrow> x = c) \<Longrightarrow> position x (map f cs) = position x cs"
  by (induction cs) auto

lemma position_rename_stamp:
  "position ''Mares_DateTime'' (columns (rename df [(''Alt'', ''Mares_Alt''), (''Mare'', ''Mares_Mare'')]))
   = position ''Mares_DateTime'' (columns df)"
  unfolding rename_def by (simp, rule position_map_fixed) auto

lemma rectangular_rename: "rectangular (rename df m) = rectangular df"
  by (simp add: rectangular_iff rename_def)

lemma rows_rename [simp]: "rows (rename df m) = rows df"
  by (simp add: rename_def)

lemma length_columns_rename [simp]: "length (columns (rename df m)) = length (columns df)"
  by (simp add: rename_def)

lemma filter_mares_result:
  "position ''Mare'' (columns tide) = Some mi \<Longrightarrow>
   filter_mares tide = Inr (tide\<lparr>rows := filter (\<lambda>r. r ! mi = Str ''Preia-Mar'') (rows tide)\<rparr>)"
  by (simp add: filter_mares_def getitem_def then_do_def mask_rows_def
      mask_by_column [of "rows tide" "\<lambda>r. r ! mi = Str ''Preia-Mar''", unfolded comp_def] comp_def)

section \<open>The normalized tables\<close>

lemma to_datetime_count:
  "length (filter (\<lambda>c. c \<noteq> NaN) (to_datetime parse xs)) =
   length (filter (\<lambda>s. parse xs s \<noteq> None) xs)"
proof -
  have "filter (\<lambda>c. c \<noteq> NaN) (map (\<lambda>s. case parse xs s of None \<Rightarrow> NaN | Some t \<Rightarrow> Stamp t) ys)
        = map (\<lambda>s. case parse xs s of None \<Rightarrow> NaN | Some t \<Rightarrow> Stamp t)
            (filter (\<lambda>s. parse xs s \<noteq> None) ys)" for ys
    by (induction ys) (auto split: option.splits)
  then show ?thesis by (simp add: to_datetime_def)
qed

lemma prepare_mares_columns:
  assumes "prepare_mares to_str parse tide = Inr ev"
  shows "''Mare'' \<in> set (columns tide) \<and> ''Hora'' \<in> set (columns tide) \<and> ''Data'' \<in> set (columns tide)"
proof (rule ccontr)
  assume "\<not> ?thesis"
  then have "''Mare'' \<notin> set (columns tide) \<or> ''Hora'' \<notin> set (columns tide) \<or> ''Data'' \<notin> set (columns tide)"
    by blast
  from prepare_mares_missing [OF this, of to_str parse] assms show False by auto
qed

lemma prepare_mares_result:
  assumes rect: "rectangular tide" and ev: "prepare_mares to_str parse tide = Inr ev"
  shows "\<exists>mi di hi k.
           position ''Mare'' (columns tide) = Some mi \<and>
           position ''Data'' (columns tide) = Some di \<and>
           position ''Hora'' (columns tide) = Some hi \<and>
           rectangular ev \<and>
           position ''Mares_DateTime'' (columns ev) = Some k \<and>
           (\<forall>r \<in> set (rows ev). is_stamp (r ! k)) \<and>
           sorted (map (\<lambda>r. stamp (r ! k)) (rows ev)) \<and>
           length (rows ev) = event_count to_str parse tide \<and>
           (\<forall>r \<in> set (rows ev). r ! mi = Str ''Preia-Mar'')"
proof -
  from prepare_mares_columns [OF ev] obtain mi di hi where
    mi: "position ''Mare'' (columns tide) = Some mi" and
    di: "position ''Data'' (columns tide) = Some di" and
    hi: "position ''Hora'' (columns tide) = Some hi"
    by (meson position_in_set)
  define df1 where "df1 = tide\<lparr>rows := filter (\<lambda>r. r ! mi = Str ''Preia-Mar'') (rows tide)\<rparr>"
  have f: "filter_mares tide = Inr df1"
    unfolding df1_def by (rule filter_mares_result [OF mi])
  have cols1: "columns df1 = columns tide" by (simp add: df1_def)
  have rect1: "rectangular df1" using rect by (simp add: rectangular_iff df1_def)
  from compose_timestamp_result [OF rect1, of "''Hora''" hi "''Data''" di to_str parse "''Mares_DateTime''"]
    hi di cols1
  obtain out k where
    out: "compose_timestamp to_str parse df1 ''Data'' ''Hora'' ''Mares_DateTime'' = Inr out" and
    rect_out: "rectangular out" and
    k: "position ''Mares_DateTime'' (columns out) = Some k" and
    st: "\<forall>r \<in> set (rows out). is_stamp (r ! k)" and
    srt: "sorted (map (\<lambda>r. stamp (r ! k)) (rows out))" and
    cnt: "length (rows out) =
            length (filter (\<lambda>c. c \<noteq> NaN) (to_datetime parse (stamp_texts to_str df1 di hi)))" and
    keep: "\<forall>j < length (columns df1). columns df1 ! j \<noteq> ''Hora'' \<longrightarrow>
             columns df1 ! j \<noteq> ''Mares_DateTime'' \<longrightarrow>
             set (map (\<lambda>r. r ! j) (rows out)) \<subseteq> set (map (\<lambda>r. r ! j) (rows df1))"
    by auto
  have ev_eq: "ev = rename out [(''Alt'', ''Mares_Alt''), (''Mare'', ''Mares_Mare'')]"
    using ev by (simp add: prepare_mares_def f out then_do_def)
  have mil: "mi < length (columns df1)" "columns df1 ! mi = ''Mare''"
    using position_SomeD [OF mi] cols1 by simp_all
  have "set (map (\<lambda>r. r ! mi) (rows out)) \<subseteq> set (map (\<lambda>r. r ! mi) (rows df1))"
    using keep mil by simp
  also have "\<dots> \<subseteq> {Str ''Preia-Mar''}" by (auto simp: df1_def)
  finally have pm: "\<forall>r \<in> set (rows ev). r ! mi = Str ''Preia-Mar''"
    by (auto simp: ev_eq)
  have "length (rows ev) = event_count to_str parse tide"
    by (simp add: ev_eq cnt to_datetime_count event_count_def mi di hi Let_def df1_def)
  with mi di hi rect_out k st srt pm show ?thesis
    by (simp add: ev_eq rectangular_rename position_rename_stamp)
qed







lemmas frame_ops =
  prepare_mares_def filter_mares_def compose_timestamp_def getitem_def setitem_def then_do_def
  mask_rows_def astype_str_def cell_text_def to_datetime_def dropna_def sort_values_def
  rename_def prepare_sheet_def sheet_skipped_def clean_sheet_def drop_provenance_def
  drop_duplicates_def drop_column_def empty_df_def duplicates_removed_def Let_def

lemmas merge_ops =
  merge_asof_def merge_keys_def nearest_pos_def backward_pos_def forward_pos_def
  in_tolerance_def tolerance_def getitem_def then_do_def Let_def

section \<open>The event filter\<close>

text \<open>
  C3. The filter of line 54 keeps exactly the rows of the tide table whose \<open>Mare\<close>
  cell is the string \<open>Preia-Mar\<close>, compared as it is: another spelling, a blank
  before or after it, or an empty cell does not pass. The rows that do not pass are
  gone before the timestamp is composed: the prepared event table is the one computed
  from the kept rows alone, and every row of it has \<open>Preia-Mar\<close> in that cell.
\<close>

theorem only_preia_mar_rows_enter:
  assumes "rectangular tide" "prepare_mares to_str parse tide = Inr ev"
  shows "\<exists>mi df1. position ''Mare'' (columns tide) = Some mi \<and>
           filter_mares tide = Inr df1 \<and> columns df1 = columns tide \<and>
           rows df1 = filter (\<lambda>r. r ! mi = Str ''Preia-Mar'') (rows tide) \<and>
           prepare_mares to_str parse df1 = Inr ev \<and>
           (\<forall>r \<in> set (rows ev). r ! mi = Str ''Preia-Mar'')"
proof -
  from prepare_mares_result [OF assms] obtain mi where
    mi: "position ''Mare'' (columns tide) = Some mi" and
    pm: "\<forall>r \<in> set (rows ev). r ! mi = Str ''Preia-Mar''" by blast
  define df1 where "df1 = tide\<lparr>rows := filter (\<lambda>r. r ! mi = Str ''Preia-Mar'') (rows tide)\<rparr>"
  have f: "filter_mares tide = Inr df1"
    unfolding df1_def by (rule filter_mares_result [OF mi])
  have "position ''Mare'' (columns df1) = Some mi" using mi by (simp add: df1_def)
  from filter_mares_result [OF this] have "filter_mares df1 = Inr df1"
    by (simp add: df1_def)
  then have "prepare_mares to_str parse df1 = prepare_mares to_str parse tide"
    by (simp add: prepare_mares_def f)
  with assms(2) mi f pm show ?thesis by (simp add: df1_def)
qed

lemma sample_tide_types_prepared:
  "prepare_mares sample_str sample_parse sample_tide_types =
     Inr \<lparr>columns = [''Data'', ''Hora'', ''Mares_Mare'', ''Mares_Alt'', ''Mares_DateTime''],
          rows = [[Str ''2024-01-01'', Str ''08:00:00'', Str ''Preia-Mar'', Num (21 / 10),
                   Stamp 1704096000000000000]]\<rparr>"
  by (simp add: frame_ops sample_tide_types_def sample_parse_def)

theorem only_preia_mar_rows_enter_witness:
  "rectangular sample_tide_types \<and>
   filter_mares sample_tide_types =
     Inr (sample_tide_types
           \<lparr>rows := [[Str ''2024-01-01'', Str ''08:00:00'', Str ''Preia-Mar'', Num (21 / 10)]]\<rparr>) \<and>
   (\<exists>mi df1. position ''Mare'' (columns sample_tide_types) = Some mi \<and>
      filter_mares sample_tide_types = Inr df1 \<and> columns df1 = columns sample_tide_types \<and>
      rows df1 = filter (\<lambda>r. r ! mi = Str ''Preia-Mar'') (rows sample_tide_types) \<and>
      prepare_mares sample_str sample_parse df1 =
        Inr \<lparr>columns = [''Data'', ''Hora'', ''Mares_Mare'', ''Mares_Alt'', ''Mares_DateTime''],
             rows = [[Str ''2024-01-01'', Str ''08:00:00'', Str ''Preia-Mar'', Num (21 / 10),
                      Stamp 1704096000000000000]]\<rparr> \<and>
      (\<forall>r \<in> set [[Str ''2024-01-01'', Str ''08:00:00'', Str ''Preia-Mar'', Num (21 / 10),
                    Stamp 1704096000000000000]]. r ! mi = Str ''Preia-Mar''))"
proof -
  have r: "rectangular sample_tide_types"
    by (simp add: rectangular_def sample_tide_types_def)
  have f: "filter_mares sample_tide_types =
     Inr (sample_tide_types
           \<lparr>rows := [[Str ''2024-01-01'', Str ''08:00:00'', Str ''Preia-Mar'', Num (21 / 10)]]\<rparr>)"
    by (simp add: filter_mares_def getitem_def then_do_def mask_rows_def sample_tide_types_def)
  show ?thesis
    using only_preia_mar_rows_enter [OF r sample_tide_types_prepared] r f by simp
qed

section \<open>Rows of the join\<close>









section \<open>The nearest reading within one hour\<close>



section \<open>The two loops\<close>

lemma set_dict_set: "set (dict_set kvs k v) \<subseteq> insert (k, v) (set kvs)"
  by (induction kvs) (auto split: if_splits)


lemma dict_set_nonempty [simp]: "dict_set kvs k v \<noteq> []"
  by (cases kvs) (auto split: if_splits)

lemma merge_sheets_content:
  assumes "merge_sheets ev ps acc = (msgs, Inr merged)" "(n, m') \<in> set merged"
  shows "(n, m') \<in> set acc \<or>
         (\<exists>t m. (n, t) \<in> set ps \<and>
            merge_asof ev t ''Mares_DateTime'' ''Temp_DateTime'' tolerance = Inr m \<and>
            m' = tag_sheet n m)"
  using assms
proof (induction ps arbitrary: acc msgs)
  case Nil
  then show ?case by simp
next
  case (Cons p ps)
  obtain sn t where p: "p = (sn, t)" by (cases p)
  from Cons.prems(1) obtain m where
    m: "merge_asof ev t ''Mares_DateTime'' ''Temp_DateTime'' tolerance = Inr m"
    by (cases "merge_asof ev t ''Mares_DateTime'' ''Temp_DateTime'' tolerance") (auto simp: p)
  from Cons.prems(1) obtain msgs' where
    rest: "merge_sheets ev ps (dict_set acc sn (tag_sheet sn m)) = (msgs', Inr merged)"
    by (auto simp: p m Let_def split: prod.splits)
  from Cons.IH [OF rest Cons.prems(2)] show ?case
  proof
    assume "(n, m') \<in> set (dict_set acc sn (tag_sheet sn m))"
    then have "(n, m') = (sn, tag_sheet sn m) \<or> (n, m') \<in> set acc"
      using set_dict_set [of acc sn "tag_sheet sn m"] by auto
    then show ?thesis using m p by auto
  next
    assume "\<exists>t m. (n, t) \<in> set ps \<and>
            merge_asof ev t ''Mares_DateTime'' ''Temp_DateTime'' tolerance = Inr m \<and>
            m' = tag_sheet n m"
    then show ?thesis by auto
  qed
qed


lemma process_returned:
  assumes "process_and_merge_data to_str parse (Inr tide) temp_file = (msgs, Returned merged)"
  shows "\<exists>ev sheets msgs1 processed msgs2.
           prepare_mares to_str parse tide = Inr ev \<and>
           temp_file = Inr sheets \<and>
           prepare_temps to_str parse sheets [] = (msgs1, Inr processed) \<and>
           merge_sheets ev processed [] = (msgs2, Inr merged)"
proof -
  from assms obtain ev where ev: "prepare_mares to_str parse tide = Inr ev"
    by (cases "prepare_mares to_str parse tide") (auto simp: process_and_merge_data_def)
  from assms obtain sheets where sh: "temp_file = Inr sheets"
    by (cases temp_file) (auto simp: process_and_merge_data_def ev)
  obtain msgs1 r where pt: "prepare_temps to_str parse sheets [] = (msgs1, r)"
    by (cases "prepare_temps to_str parse sheets []")
  from assms obtain processed where r: "r = Inr processed"
    by (cases r) (auto simp: process_and_merge_data_def ev sh pt)
  obtain msgs2 r2 where ms: "merge_sheets ev processed [] = (msgs2, r2)"
    by (cases "merge_sheets ev processed []")
  from assms have "r2 = Inr merged"
    by (cases r2) (auto simp: process_and_merge_data_def ev sh pt r ms split: if_splits)
  with ev sh pt r ms show ?thesis by simp
qed

lemma length_rows_tag_sheet [simp]: "length (rows (tag_sheet n m)) = length (rows m)"
  by (simp add: tag_sheet_def length_rows_setitem)

lemma tag_sheet_other_column:
  assumes "k < length (columns m)" "columns m ! k \<noteq> ''Source_Temp_Sheet''"
      and "\<forall>r \<in> set (rows m). k < length r"
  shows "map (\<lambda>r. r ! k) (rows (tag_sheet n m)) = map (\<lambda>r. r ! k) (rows m)"
proof (cases "position ''Source_Temp_Sheet'' (columns m)")
  case None
  have "map (\<lambda>r. r ! k) (map (\<lambda>(r, v). r @ [v]) (zip (rows m) (replicate (length (rows m)) (Str n))))
        = map (\<lambda>r. r ! k) (rows m)"
    using assms(3) by (intro nth_zip_snoc_other) auto
  then show ?thesis using None by (simp add: tag_sheet_def setitem_def)
next
  case (Some i)
  then have "k \<noteq> i" using position_SomeD [OF Some] assms(2) by auto
  then have "map (\<lambda>r. r ! k) (map (\<lambda>(r, v). r[i := v]) (zip (rows m) (replicate (length (rows m)) (Str n))))
        = map (\<lambda>r. r ! k) (rows m)"
    by (intro nth_zip_update_other) auto
  then show ?thesis using Some by (simp add: tag_sheet_def setitem_def)
qed

lemma merge_asof_left_column:
  assumes m: "merge_asof left right lo ro tol = Inr m" and rect: "rectangular left"
      and k: "k < length (columns left)"
  shows "map (\<lambda>r. r ! k) (rows m) = map (\<lambda>r. r ! k) (rows left) \<and>
         (\<forall>r \<in> set (rows m). k < length r) \<and> k < length (columns m) \<and>
         (columns m ! k = columns left ! k \<or> columns m ! k = columns left ! k @ ''_x'')"
proof -
  from merge_asof_Inr [OF m] obtain lk rk where
    lk: "merge_keys left lo = Inr lk" and
    r: "rows m = map (\<lambda>(r, l). r @ (case nearest_pos tol rk l of
                                         None \<Rightarrow> replicate (length (columns right)) NaN
                                       | Some j \<Rightarrow> rows right ! j))
                        (zip (rows left) lk)" and
    c: "columns m =
             map (\<lambda>c. if c \<in> set (columns right) then c @ ''_x'' else c) (columns left) @
             map (\<lambda>c. if c \<in> set (columns left) then c @ ''_y'' else c) (columns right)"
    by blast
  from merge_keys_Inr [OF lk] have len: "length (rows left) = length lk" by auto
  have all: "\<forall>r \<in> set (rows left). k < length r" using rect k by (simp add: rectangular_iff)
  have gen: "length xs = length ys \<Longrightarrow> \<forall>r \<in> set xs. k < length r \<Longrightarrow>
      map (\<lambda>r. r ! k) (map (\<lambda>(r, l). r @ f l) (zip xs ys)) = map (\<lambda>r. r ! k) xs \<and>
      (\<forall>r \<in> set (map (\<lambda>(r, l). r @ f l) (zip xs ys)). k < length r)"
    for xs :: "cell list list" and ys :: "int list" and f
    by (induction xs ys rule: list_induct2) (auto simp: nth_append)
  from gen [OF len all] r have
    "map (\<lambda>r. r ! k) (rows m) = map (\<lambda>r. r ! k) (rows left)" "\<forall>r \<in> set (rows m). k < length r"
    by simp_all
  moreover have "k < length (columns m)" using k by (simp add: c)
  moreover have "columns m ! k = columns left ! k \<or> columns m ! k = columns left ! k @ ''_x''"
    using k by (simp add: c nth_append)
  ultimately show ?thesis by blast
qed

lemmas pipeline_ops =
  process_and_merge_data_def frame_ops merge_ops tag_sheet_def

lemma sample_run:
  "process_and_merge_data sample_str sample_parse (Inr sample_tide) (Inr [(''A'', Inr sample_sheet)])
   = ([Tide_loaded, Merging_data, Merging_with ''A'', Merged_rows ''A'' 1],
      Returned [(''A'', sample_merged)])"
  by (simp add: pipeline_ops sample_parse_def sample_str_def sample_tide_def sample_sheet_def
      sample_merged_def)

lemma sample_run_unsorted:
  "process_and_merge_data sample_str sample_parse (Inr sample_tide_unsorted)
     (Inr [(''A'', Inr sample_sheet)])
   = ([Tide_loaded, Merging_data, Merging_with ''A'', Merged_rows ''A'' 2],
      Returned [(''A'', sample_merged_two)])"
  by (simp add: pipeline_ops sample_parse_def sample_str_def sample_tide_unsorted_def
      sample_sheet_def sample_merged_two_def)

section \<open>The rows of a merged table\<close>



text \<open>
  C9. Whenever a call returns, the rows of each merged table are in ascending order of
  the event timestamp: the column of the event timestamp in the merged table is that
  column of the prepared event table, row by row, and it is sorted.
\<close>

theorem merged_rows_ascending:
  assumes "rectangular tide"
      and "process_and_merge_data to_str parse (Inr tide) temp_file = (msgs, Returned merged)"
      and "(sheet_name, m) \<in> set merged"
  shows "\<exists>ev k ts. prepare_mares to_str parse tide = Inr ev \<and>
           position ''Mares_DateTime'' (columns ev) = Some k \<and>
           map (\<lambda>r. r ! k) (rows ev) = map Stamp ts \<and>
           map (\<lambda>r. r ! k) (rows m) = map Stamp ts \<and>
           sorted ts"
proof -
  from process_returned [OF assms(2)] obtain ev processed msgs2 where
    ev: "prepare_mares to_str parse tide = Inr ev" and
    ms: "merge_sheets ev processed [] = (msgs2, Inr merged)" by blast
  from merge_sheets_content [OF ms assms(3)] obtain t m0 where
    m0: "merge_asof ev t ''Mares_DateTime'' ''Temp_DateTime'' tolerance = Inr m0"
        "m = tag_sheet sheet_name m0" by auto
  from prepare_mares_result [OF assms(1) ev] obtain k where
    rect: "rectangular ev" and
    k: "position ''Mares_DateTime'' (columns ev) = Some k" and
    st: "\<forall>r \<in> set (rows ev). is_stamp (r ! k)" and
    srt: "sorted (map (\<lambda>r. stamp (r ! k)) (rows ev))" by blast
  define ts where "ts = map (\<lambda>r. stamp (r ! k)) (rows ev)"
  have cells: "map (\<lambda>r. r ! k) (rows ev) = map Stamp ts"
    using st by (simp add: ts_def comp_def is_stamp_iff [symmetric] cong: map_cong)
  have kl: "k < length (columns ev)" "columns ev ! k = ''Mares_DateTime''"
    using position_SomeD [OF k] by simp_all
  from merge_asof_left_column [OF m0(1) rect kl(1)] kl(2) have
    c0: "map (\<lambda>r. r ! k) (rows m0) = map (\<lambda>r. r ! k) (rows ev)" and
    l0: "\<forall>r \<in> set (rows m0). k < length r" "k < length (columns m0)" and
    n0: "columns m0 ! k = ''Mares_DateTime'' \<or> columns m0 ! k = ''Mares_DateTime'' @ ''_x''"
    by simp_all
  from n0 have "columns m0 ! k \<noteq> ''Source_Temp_Sheet''" by auto
  from tag_sheet_other_column [OF l0(2) this l0(1), of sheet_name]
  have "map (\<lambda>r. r ! k) (rows m) = map Stamp ts" by (simp add: m0(2) c0 cells)
  moreover have "sorted ts" using srt by (simp add: ts_def)
  ultimately show ?thesis using ev k cells by blast
qed

theorem merged_rows_ascending_witness:
  "map (\<lambda>r. r ! 4) (rows sample_merged_two) =
     [Stamp 1704096000000000000, Stamp 1704117600000000000] \<and>
   (\<exists>ev k ts. prepare_mares sample_str sample_parse sample_tide_unsorted = Inr ev \<and>
           position ''Mares_DateTime'' (columns ev) = Some k \<and>
           map (\<lambda>r. r ! k) (rows ev) = map Stamp ts \<and>
           map (\<lambda>r. r ! k) (rows sample_merged_two) = map Stamp ts \<and>
           sorted ts)"
proof -
  have r: "rectangular sample_tide_unsorted"
    by (simp add: rectangular_def sample_tide_unsorted_def)
  have "map (\<lambda>r. r ! 4) (rows sample_merged_two) =
     [Stamp 1704096000000000000, Stamp 1704117600000000000]"
    by (simp add: sample_merged_two_def)
  with merged_rows_ascending [OF r sample_run_unsorted, of "''A''" sample_merged_two]
  show ?thesis by simp
qed

section \<open>Calls on readable workbooks\<close>









section \<open>Skipped sheets and failing sheets\<close>




section \<open>No event at all\<close>



section \<open>A tide table without the value column\<close>

text \<open>
  The column \<open>Alt\<close> is not looked up: a tide table without it is merged like any
  other, and the merged table has no \<open>Mares_Alt\<close> column.
\<close>

lemma missing_value_column_is_ignored:
  "process_and_merge_data sample_str sample_parse (Inr sample_tide_no_value)
     (Inr [(''A'', Inr sample_sheet)])
   = ([Tide_loaded, Merging_data, Merging_with ''A'', Merged_rows ''A'' 1],
      Returned
       [(''A'',
         \<lparr>columns = [''Data'', ''Hora'', ''Mares_Mare'', ''Mares_DateTime'',
                      ''Date'', ''time'', ''CaboSines'', ''Temp_DateTime'', ''Source_Temp_Sheet''],
          rows = [[Str ''2024-01-01'', Str ''08:00:00'', Str ''Preia-Mar'',
                   Stamp 1704096000000000000, Str ''2024-01-01'', Str ''08:05:00'',
                   Num (182 / 10), Stamp 1704096300000000000, Str ''A'']]\<rparr>)])"
  by (simp add: pipeline_ops sample_parse_def sample_str_def sample_tide_no_value_def
      sample_sheet_def)

end
